theory Spec2Isabelle
  imports Complex_Main
begin

section \<open>Values shared by both hooks\<close>

text \<open>
  A JavaScript value of type \<open>number | undefined\<close>, as \<open>useTransform\<close> stores it. The
  number type \<open>'n\<close> is left abstract there: that hook never inspects a number, it
  only prints it.
\<close>

datatype 'n jsval = Num 'n | Undefined

text \<open>The only exception either hook can raise: a property access on \<open>null\<close>.\<close>

datatype error = TypeError

section \<open>useTransform\<close>

text \<open>
  The argument of \<open>set\<close>, of type \<open>{ x?: number; y?: number }\<close>. A property is either
  absent (\<open>None\<close>) or present with a value, and a present value may be \<open>undefined\<close>.
\<close>

record 'n point_arg =
  arg_x :: "'n jsval option"
  arg_y :: "'n jsval option"

text \<open>The object held by \<open>local.current\<close>: both properties are always present.\<close>

record 'n point =
  point_x :: "'n jsval"
  point_y :: "'n jsval"

text \<open>The attached DOM element, reduced to \<open>style.transform\<close>.\<close>

record element =
  style_transform :: string

text \<open>
  The two refs of the hook, and the sequence of strings assigned to \<open>style.transform\<close>
  so far (the DOM writes, oldest first).
\<close>

record 'n transform_state =
  ref_current :: "element option"
  local_current :: "'n point"
  style_writes :: "string list"

text \<open>\<open>useRef(null)\<close> and \<open>useRef({ x: 0, y: 0 })\<close>.\<close>

definition useTransform :: "'n::zero transform_state" where
  "useTransform =
     \<lparr>ref_current = None,
      local_current = \<lparr>point_x = Num 0, point_y = Num 0\<rparr>,
      style_writes = []\<rparr>"

text \<open>
  \<open>Object.assign(target, source)\<close>: every own enumerable property of the source is
  copied onto the target, whatever its value; a property the source lacks is left alone.
\<close>

definition Object_assign :: "'n point \<Rightarrow> 'n point_arg \<Rightarrow> 'n point" where
  "Object_assign target source =
     \<lparr>point_x = (case arg_x source of None \<Rightarrow> point_x target | Some v \<Rightarrow> v),
      point_y = (case arg_y source of None \<Rightarrow> point_y target | Some v \<Rightarrow> v)\<rparr>"

text \<open>
  String conversion inside a template literal. \<open>str\<close> is the host's conversion of a
  number; \<open>undefined\<close> prints as the word.
\<close>

fun toString :: "('n \<Rightarrow> string) \<Rightarrow> 'n jsval \<Rightarrow> string" where
  "toString str (Num n) = str n"
| "toString str Undefined = ''undefined''"

text \<open>The template literal \<open>`translate3d(${x}px, ${y}px, 0)`\<close>.\<close>

definition translate3d :: "('n \<Rightarrow> string) \<Rightarrow> 'n point \<Rightarrow> string" where
  "translate3d str p =
     ''translate3d('' @ toString str (point_x p) @ ''px, '' @ toString str (point_y p) @ ''px, 0)''"

text \<open>
  The assignment \<open>ref.current.style.transform = v\<close>: on \<open>null\<close> the property access
  raises.
\<close>

definition write_transform :: "element option \<Rightarrow> string \<Rightarrow> error + element" where
  "write_transform r v =
     (case r of None \<Rightarrow> Inl TypeError | Some e \<Rightarrow> Inr (e\<lparr>style_transform := v\<rparr>))"

text \<open>
  The callback \<open>set\<close>: merge, then write the style when \<open>ref.current\<close> is truthy (an
  element is, \<open>null\<close> is not).
\<close>

definition set_transform ::
  "('n \<Rightarrow> string) \<Rightarrow> 'n transform_state \<Rightarrow> 'n point_arg \<Rightarrow> error + 'n transform_state" where
  "set_transform str s point =
     (let s1 = s\<lparr>local_current := Object_assign (local_current s) point\<rparr> in
      if ref_current s1 \<noteq> None then
        (let v = translate3d str (local_current s1) in
         case write_transform (ref_current s1) v of
           Inl e \<Rightarrow> Inl e
         | Inr el \<Rightarrow> Inr (s1\<lparr>ref_current := Some el, style_writes := style_writes s1 @ [v]\<rparr>))
      else Inr s1)"

text \<open>A sequence of \<open>set\<close> calls; an exception ends it.\<close>

fun set_all ::
  "('n \<Rightarrow> string) \<Rightarrow> 'n transform_state \<Rightarrow> 'n point_arg list \<Rightarrow> error + 'n transform_state" where
  "set_all str s [] = Inr s"
| "set_all str s (p # ps) =
     (case set_transform str s p of Inl e \<Rightarrow> Inl e | Inr s' \<Rightarrow> set_all str s' ps)"

text \<open>The host attaching an element to the ref (React does so when the element mounts).\<close>

definition attach :: "'n transform_state \<Rightarrow> element \<Rightarrow> 'n transform_state" where
  "attach s e = s\<lparr>ref_current := Some e\<rparr>"

text \<open>
  Number-to-string conversion for integer-valued numbers, as the host prints them:
  decimal digits, with a minus sign below zero.
\<close>

fun digits :: "nat \<Rightarrow> string" where
  "digits n =
     (if n < 10 then [''0123456789'' ! n]
      else digits (n div 10) @ [''0123456789'' ! (n mod 10)])"

declare digits.simps [simp del]

definition int_str :: "int \<Rightarrow> string" where
  "int_str i = (if i < 0 then CHR ''-'' # digits (nat (- i)) else digits (nat i))"

section \<open>useCanvas2d\<close>

subsection \<open>The canvas element and the observable effects\<close>

text \<open>The value \<open>getContext('2d')\<close> hands out.\<close>

datatype context2d = Context2D

text \<open>
  How the style sheet sizes the canvas: either it fixes the displayed width and height
  (as in the hook's documented example, \<open>width: '100%', height: '200px'\<close>), or it leaves
  them to the element, which is then displayed at the size of its backing store. Layouts
  that fix one dimension only, borders and padding are not modelled.
\<close>

datatype sizing = Fixed int int | Intrinsic

text \<open>
  The canvas element: how it is sized, its backing-store size (the attributes \<open>width\<close>
  and \<open>height\<close>, of type unsigned long), and what \<open>getContext('2d')\<close> returns for it
  (\<open>null\<close> is possible).
\<close>

record canvas =
  sizing :: sizing
  width :: nat
  height :: nat
  context_2d :: "context2d option"

text \<open>The displayed size, as the layout reports it in \<open>offsetWidth\<close> and \<open>offsetHeight\<close>.\<close>

definition offsetWidth :: "canvas \<Rightarrow> int" where
  "offsetWidth c = (case sizing c of Fixed w h \<Rightarrow> w | Intrinsic \<Rightarrow> int (width c))"

definition offsetHeight :: "canvas \<Rightarrow> int" where
  "offsetHeight c = (case sizing c of Fixed w h \<Rightarrow> h | Intrinsic \<Rightarrow> int (height c))"

text \<open>
  A number assigned to an attribute of type unsigned long is converted by the host: it is
  truncated toward zero and reduced modulo \<open>2^32\<close>. Numbers are real numbers here: the
  rounding of a product of two doubles is left out, and so are \<open>NaN\<close> and the
  infinities.
\<close>

definition unsigned_long :: "real \<Rightarrow> nat" where
  "unsigned_long x = nat ((if x < 0 then - \<lfloor>- x\<rfloor> else \<lfloor>x\<rfloor>) mod 4294967296)"

text \<open>
  The \<open>width\<close> and \<open>height\<close> of a canvas reflect content attributes that have a
  default: a value above \<open>2147483647\<close> is replaced by the default.
\<close>

definition reflected :: "nat \<Rightarrow> nat \<Rightarrow> nat" where
  "reflected dflt n = (if n \<le> 2147483647 then n else dflt)"

text \<open>The assignments \<open>canvas.width = x\<close> (default 300) and \<open>canvas.height = x\<close> (default 150).\<close>

definition set_width :: "canvas \<Rightarrow> real \<Rightarrow> canvas" where
  "set_width c x = c\<lparr>width := reflected 300 (unsigned_long x)\<rparr>"

definition set_height :: "canvas \<Rightarrow> real \<Rightarrow> canvas" where
  "set_height c x = c\<lparr>height := reflected 150 (unsigned_long x)\<rparr>"

text \<open>
  What the hook does to the outside, in order: a call of \<open>getContext\<close>, an assignment to
  the backing-store width or height (with the number assigned), a call \<open>fn(canvas.current, ctx.current)\<close> of the
  render callback (with the canvas as it is at the call), and an exception that escapes a
  timer callback. The render callback itself is opaque: it is identified by a value of
  type \<open>'f\<close> and assumed to return normally without touching the hook's state.
\<close>

datatype 'f effect =
    GetContext
  | SetWidth real
  | SetHeight real
  | Render 'f canvas "context2d option"
  | Uncaught error

subsection \<open>The debounced function\<close>

text \<open>
  Modelled from the spec: \<open>debounce\<close>, imported from \<open>../utils\<close>, is not among the
  sources. The spec describes it as coalescing a burst of events into a single delayed
  action fired after a quiescence period: on a call, (re)start a timer of the fixed
  delay, cancelling the one pending; when the timer fires, execute the wrapped function.
  The closure returned by \<open>debounce(func, wait)\<close> is the record below; \<open>timeout\<close> is the
  instant its pending timer is due, \<open>None\<close> when no timer is pending. The wrapped
  function is the arrow function of the hook, which differs between effect runs only in
  the render callback it captured, so \<open>func\<close> holds that callback.
\<close>

record 'f debounced =
  func :: 'f
  wait :: nat
  timeout :: "nat option"

text \<open>Modelled from the spec: \<open>debounce(func, wait)\<close> creates a closure with no timer pending.\<close>

definition debounce :: "'f \<Rightarrow> nat \<Rightarrow> 'f debounced" where
  "debounce f w = \<lparr>func = f, wait = w, timeout = None\<rparr>"

text \<open>
  Modelled from the spec: a call of the debounced function at instant \<open>now\<close> replaces the
  pending timer, if any, by one due \<open>wait\<close> later. Nothing is executed by the call itself.
\<close>

definition debounced_call :: "nat \<Rightarrow> 'f debounced \<Rightarrow> 'f debounced" where
  "debounced_call now d = d\<lparr>timeout := Some (now + wait d)\<rparr>"

text \<open>Modelled from the spec: the timer of a debounced function is due at the given instant.\<close>

definition due :: "nat \<Rightarrow> 'f debounced \<Rightarrow> bool" where
  "due now d = (case timeout d of None \<Rightarrow> False | Some t \<Rightarrow> t \<le> now)"

subsection \<open>The state of one hook instance and of its host\<close>

text \<open>
  The three refs of the hook; the host's pixel density; the debounced functions created
  so far (one per run of the first effect; a closure is named by its position);
  the \<open>resize\<close> listeners registered on the window, as positions in that list; the
  dependency and the clean-up of the first effect's last run (the callback it ran with
  and the listener its clean-up removes), \<open>None\<close> when the component is not mounted;
  the clock; and the effects so far, oldest first.
\<close>

record 'f canvas2d_state =
  canvas_current :: "canvas option"
  ctx_current :: "context2d option"
  hasFired :: bool
  devicePixelRatio :: real
  handlers :: "'f debounced list"
  listeners :: "nat list"
  effect_run :: "('f \<times> nat) option"
  clock :: nat
  trace :: "'f effect list"

text \<open>The first render: \<open>useRef(null)\<close>, \<open>useRef(null)\<close>, \<open>useRef(false)\<close>.\<close>

definition useCanvas2d :: "real \<Rightarrow> 'f canvas2d_state" where
  "useCanvas2d dpr =
     \<lparr>canvas_current = None, ctx_current = None, hasFired = False,
      devicePixelRatio = dpr, handlers = [], listeners = [], effect_run = None,
      clock = 0, trace = []\<rparr>"

subsection \<open>The handler and the two effects\<close>

text \<open>
  The arrow function wrapped by \<open>debounce\<close>, for the render callback \<open>fn\<close>. Each
  \<open>canvas.current!\<close> is an unchecked dereference (the \<open>!\<close> is erased by the compiler):
  on \<open>null\<close> the first of them raises.
\<close>

definition handleCanvas ::
  "'f \<Rightarrow> 'f canvas2d_state \<Rightarrow> error + 'f canvas2d_state" where
  "handleCanvas fn s =
     (case canvas_current s of
        None \<Rightarrow> Inl TypeError
      | Some c \<Rightarrow>
          (let w = real_of_int (offsetWidth c) * devicePixelRatio s;
               c1 = set_width c w;
               h = real_of_int (offsetHeight c1) * devicePixelRatio s;
               c2 = set_height c1 h
           in Inr (s\<lparr>canvas_current := Some c2,
                     trace := trace s @ [SetWidth w, SetHeight h, Render fn c2 (ctx_current s)]\<rparr>)))"

text \<open>A call \<open>handleCanvas()\<close> of the debounced function at position \<open>i\<close>.\<close>

definition call_handler :: "nat \<Rightarrow> 'f canvas2d_state \<Rightarrow> 'f canvas2d_state" where
  "call_handler i s =
     s\<lparr>handlers := (handlers s)[i := debounced_call (clock s) (handlers s ! i)]\<rparr>"

text \<open>
  The body of the first effect, run with the render callback \<open>fn\<close>: create the debounced
  function, register it for \<open>resize\<close>, and call it once if \<open>hasFired\<close> is still unset.
\<close>

definition effect_resize :: "'f \<Rightarrow> 'f canvas2d_state \<Rightarrow> 'f canvas2d_state" where
  "effect_resize fn s =
     (let i = length (handlers s);
          s1 = s\<lparr>handlers := handlers s @ [debounce fn 250],
                 listeners := listeners s @ [i],
                 effect_run := Some (fn, i)\<rparr>
      in if \<not> hasFired s1 then (call_handler i s1)\<lparr>hasFired := True\<rparr> else s1)"

text \<open>The clean-up the first effect returns: \<open>removeEventListener('resize', handleCanvas)\<close>.\<close>

definition cleanup_resize :: "nat \<Rightarrow> 'f canvas2d_state \<Rightarrow> 'f canvas2d_state" where
  "cleanup_resize i s = s\<lparr>listeners := removeAll i (listeners s)\<rparr>"

text \<open>The body of the second effect: \<open>ctx.current = canvas.current!.getContext('2d')\<close>.\<close>

definition effect_context :: "'f canvas2d_state \<Rightarrow> error + 'f canvas2d_state" where
  "effect_context s =
     (case canvas_current s of
        None \<Rightarrow> Inl TypeError
      | Some c \<Rightarrow> Inr (s\<lparr>ctx_current := context_2d c, trace := trace s @ [GetContext]\<rparr>))"

subsection \<open>The host: mounting, events, timers\<close>

text \<open>
  Mounting: the host attaches the canvas element to the ref (\<open>None\<close> when the caller
  attached the ref to nothing), then runs the effects in the order of their declaration.
\<close>

definition mount ::
  "'f \<Rightarrow> canvas option \<Rightarrow> 'f canvas2d_state \<Rightarrow> error + 'f canvas2d_state" where
  "mount fn el s = effect_context (effect_resize fn (s\<lparr>canvas_current := el\<rparr>))"

text \<open>
  A later render with the callback \<open>fn\<close>: the first effect has the dependency list
  \<open>[fn]\<close>, so it is cleaned up and run again exactly when the callback is not the one of
  its last run; the second has the dependency list \<open>[]\<close> and never runs again.
\<close>

definition rerender :: "'f \<Rightarrow> 'f canvas2d_state \<Rightarrow> 'f canvas2d_state" where
  "rerender fn s =
     (case effect_run s of
        None \<Rightarrow> s
      | Some (fn0, i) \<Rightarrow> if fn = fn0 then s else effect_resize fn (cleanup_resize i s))"

text \<open>
  Unmounting, the teardown of the owning scope: the host clears the element ref and runs
  the clean-up of the first effect. The other two refs are plain cells and keep their
  values.
\<close>

definition unmount :: "'f canvas2d_state \<Rightarrow> 'f canvas2d_state" where
  "unmount s =
     (case effect_run s of
        None \<Rightarrow> s
      | Some (fn0, i) \<Rightarrow> (cleanup_resize i (s\<lparr>canvas_current := None\<rparr>))\<lparr>effect_run := None\<rparr>)"

text \<open>A \<open>resize\<close> event on the window: every registered listener is called, in order.\<close>

definition resize :: "'f canvas2d_state \<Rightarrow> 'f canvas2d_state" where
  "resize s = fold call_handler (listeners s) s"

text \<open>
  The style sheet now displays the canvas at the given width and height, or the pixel
  density changes. No code of the hook runs.
\<close>

definition layout :: "int \<Rightarrow> int \<Rightarrow> real \<Rightarrow> 'f canvas2d_state \<Rightarrow> 'f canvas2d_state" where
  "layout w h dpr s =
     s\<lparr>canvas_current := map_option (\<lambda>c. c\<lparr>sizing := Fixed w h\<rparr>) (canvas_current s),
       devicePixelRatio := dpr\<rparr>"

text \<open>
  Modelled from the spec: when the timer of the debounced function at position \<open>j\<close>
  fires, the timer is gone and the wrapped function is executed. An exception it raises
  escapes the timer callback: the host reports it and goes on.
\<close>

definition fire :: "nat \<Rightarrow> 'f canvas2d_state \<Rightarrow> 'f canvas2d_state" where
  "fire j s =
     (let d = handlers s ! j;
          s1 = s\<lparr>handlers := (handlers s)[j := d\<lparr>timeout := None\<rparr>]\<rparr>
      in case handleCanvas (func d) s1 of
           Inl e \<Rightarrow> s1\<lparr>trace := trace s1 @ [Uncaught e]\<rparr>
         | Inr s2 \<Rightarrow> s2)"

fun fire_due :: "nat list \<Rightarrow> 'f canvas2d_state \<Rightarrow> 'f canvas2d_state" where
  "fire_due [] s = s"
| "fire_due (j # js) s =
     fire_due js (if due (clock s) (handlers s ! j) then fire j s else s)"

text \<open>One unit of time passes; the timers then due fire, oldest closure first.\<close>

definition tick :: "'f canvas2d_state \<Rightarrow> 'f canvas2d_state" where
  "tick s = (let s1 = s\<lparr>clock := clock s + 1\<rparr> in fire_due [0..<length (handlers s1)] s1)"

fun advance :: "nat \<Rightarrow> 'f canvas2d_state \<Rightarrow> 'f canvas2d_state" where
  "advance 0 s = s"
| "advance (Suc k) s = advance k (tick s)"

text \<open>What can happen to a mounted hook, and a run of such events.\<close>

datatype 'f event =
    Resize
  | Advance nat
  | Rerender 'f
  | Layout int int real
  | Unmount

fun step :: "'f canvas2d_state \<Rightarrow> 'f event \<Rightarrow> 'f canvas2d_state" where
  "step s Resize = resize s"
| "step s (Advance k) = advance k s"
| "step s (Rerender fn) = rerender fn s"
| "step s (Layout w h dpr) = layout w h dpr s"
| "step s Unmount = unmount s"

definition run :: "'f canvas2d_state \<Rightarrow> 'f event list \<Rightarrow> 'f canvas2d_state" where
  "run s evs = foldl step s evs"

text \<open>Counting the effects of one kind in a trace.\<close>

definition acquisitions :: "'f effect list \<Rightarrow> nat" where
  "acquisitions tr = length (filter (\<lambda>e. case e of GetContext \<Rightarrow> True | _ \<Rightarrow> False) tr)"

definition renders :: "'f effect list \<Rightarrow> nat" where
  "renders tr = length (filter (\<lambda>e. case e of Render f c k \<Rightarrow> True | _ \<Rightarrow> False) tr)"

definition recomputations :: "'f effect list \<Rightarrow> nat" where
  "recomputations tr = length (filter (\<lambda>e. case e of SetWidth w \<Rightarrow> True | _ \<Rightarrow> False) tr)"

subsection \<open>Scenarios\<close>

text \<open>
  A mounted hook with its canvas attached, whose live effect ran with the callback \<open>fn\<close>
  and owns the debounced function at position \<open>i\<close>, the only listener; no closure of
  an earlier effect run has a timer pending.
\<close>

definition steady :: "'f \<Rightarrow> nat \<Rightarrow> 'f canvas2d_state \<Rightarrow> bool" where
  "steady fn i s =
     (effect_run s = Some (fn, i) \<and> listeners s = [i] \<and> i < length (handlers s) \<and>
      func (handlers s ! i) = fn \<and> wait (handlers s ! i) = 250 \<and>
      canvas_current s \<noteq> None \<and>
      (\<forall>j \<in> set [0..<length (handlers s)]. j \<noteq> i \<longrightarrow> timeout (handlers s ! j) = None))"

text \<open>
  A burst: resize events, layout changes and the passing of time, in which fewer than 250
  time units separate the end of the events from the last resize event, and each resize
  event from the one before. The first argument is the time already elapsed since the
  last resize event.
\<close>

fun within_window :: "nat \<Rightarrow> 'f event list \<Rightarrow> bool" where
  "within_window t [] = True"
| "within_window t (Resize # evs) = within_window 0 evs"
| "within_window t (Advance k # evs) = (t + k < 250 \<and> within_window (t + k) evs)"
| "within_window t (Layout w h d # evs) = within_window t evs"
| "within_window t (Rerender fn # evs) = False"
| "within_window t (Unmount # evs) = False"

text \<open>The time elapsed since the last resize event, at the end of the events.\<close>

fun since_resize :: "nat \<Rightarrow> 'f event list \<Rightarrow> nat" where
  "since_resize t [] = t"
| "since_resize t (Resize # evs) = since_resize 0 evs"
| "since_resize t (Advance k # evs) = since_resize (t + k) evs"
| "since_resize t (Layout w h d # evs) = since_resize t evs"
| "since_resize t (Rerender fn # evs) = since_resize t evs"
| "since_resize t (Unmount # evs) = since_resize t evs"

text \<open>
  A concrete instance: a canvas displayed at 100 by 50 on a display of density 2, and the
  state of the hook right after mounting it with the callback \<open>f\<close>.
\<close>

definition demo_canvas :: canvas where
  "demo_canvas =
     \<lparr>sizing = Fixed 100 50, width = 300, height = 150, context_2d = Some Context2D\<rparr>"

definition demo_mounted :: "string canvas2d_state" where
  "demo_mounted =
     \<lparr>canvas_current = Some demo_canvas, ctx_current = Some Context2D, hasFired = True,
      devicePixelRatio = 2,
      handlers = [\<lparr>func = ''f'', wait = 250, timeout = Some 250\<rparr>],
      listeners = [0], effect_run = Some (''f'', 0), clock = 0, trace = [GetContext]\<rparr>"



section \<open>Properties of useTransform\<close>

text \<open>What \<open>set\<close> returns, in one equation: it never raises.\<close>

lemma set_transform_total:
  "set_transform str s p =
     Inr (case ref_current s of
            None \<Rightarrow> s\<lparr>local_current := Object_assign (local_current s) p\<rparr>
          | Some e \<Rightarrow>
              s\<lparr>local_current := Object_assign (local_current s) p,
                ref_current :=
                  Some (e\<lparr>style_transform := translate3d str (Object_assign (local_current s) p)\<rparr>),
                style_writes :=
                  style_writes s @ [translate3d str (Object_assign (local_current s) p)]\<rparr>)"
  by (simp add: set_transform_def write_transform_def Let_def split: option.splits)

lemma set_transform_local:
  "set_transform str s p = Inr s' \<Longrightarrow> local_current s' = Object_assign (local_current s) p"
  by (auto simp: set_transform_total split: option.splits)

lemma set_all_local:
  "\<exists>s'. set_all str s ps = Inr s' \<and>
     point_x (local_current s') = last (point_x (local_current s) # List.map_filter arg_x ps) \<and>
     point_y (local_current s') = last (point_y (local_current s) # List.map_filter arg_y ps)"
proof (induction ps arbitrary: s)
  case Nil
  show ?case by simp
next
  case (Cons p ps)
  obtain s1 where s1: "set_transform str s p = Inr s1"
    by (simp add: set_transform_total)
  have l1: "local_current s1 = Object_assign (local_current s) p"
    using s1 by (rule set_transform_local)
  from Cons.IH [of s1] obtain s' where s': "set_all str s1 ps = Inr s'"
    and x: "point_x (local_current s') = last (point_x (local_current s1) # List.map_filter arg_x ps)"
    and y: "point_y (local_current s') = last (point_y (local_current s1) # List.map_filter arg_y ps)"
    by blast
  have "set_all str s (p # ps) = Inr s'"
    using s1 s' by simp
  moreover have "point_x (local_current s') =
      last (point_x (local_current s) # List.map_filter arg_x (p # ps))"
    using x l1 by (simp add: Object_assign_def split: option.splits)
  moreover have "point_y (local_current s') =
      last (point_y (local_current s) # List.map_filter arg_y (p # ps))"
    using y l1 by (simp add: Object_assign_def split: option.splits)
  ultimately show ?case by blast
qed

text \<open>
  C3. Any sequence of \<open>set\<close> calls, from any state, succeeds, and afterwards each
  coordinate is the last value the sequence gave for it, or the previous one when no call
  of the sequence gave that field: omitted fields are kept. In particular \<open>set({x: a})\<close>
  followed by \<open>set({y: b})\<close> leaves the point \<open>(a, b)\<close>.
\<close>

theorem set_partial_update:
  "(\<exists>s'. set_all str s ps = Inr s' \<and>
      point_x (local_current s') = last (point_x (local_current s) # List.map_filter arg_x ps) \<and>
      point_y (local_current s') = last (point_y (local_current s) # List.map_filter arg_y ps)) \<and>
   (\<exists>s'. set_all str s [\<lparr>arg_x = Some a, arg_y = None\<rparr>, \<lparr>arg_x = None, arg_y = Some b\<rparr>] = Inr s' \<and>
      local_current s' = \<lparr>point_x = a, point_y = b\<rparr>)"
proof
  show "\<exists>s'. set_all str s ps = Inr s' \<and>
      point_x (local_current s') = last (point_x (local_current s) # List.map_filter arg_x ps) \<and>
      point_y (local_current s') = last (point_y (local_current s) # List.map_filter arg_y ps)"
    by (rule set_all_local)
next
  show "\<exists>s'. set_all str s [\<lparr>arg_x = Some a, arg_y = None\<rparr>, \<lparr>arg_x = None, arg_y = Some b\<rparr>] = Inr s' \<and>
      local_current s' = \<lparr>point_x = a, point_y = b\<rparr>"
    by (simp add: set_transform_total Object_assign_def split: option.splits)
qed

theorem set_partial_update_witness:
  "\<exists>s'. set_all int_str useTransform
          [\<lparr>arg_x = Some (Num 7), arg_y = None\<rparr>, \<lparr>arg_x = None, arg_y = Some (Num (- 3))\<rparr>] = Inr s' \<and>
        local_current s' = \<lparr>point_x = Num 7, point_y = Num (- 3)\<rparr>"
  using set_partial_update [of int_str useTransform "[]" "Num 7" "Num (- 3)"] by blast

text \<open>
  C6. With an element attached, \<open>set\<close> succeeds, stores the merged point, and assigns
  exactly one string to the element's \<open>style.transform\<close>: the \<open>translate3d\<close> of the merged
  point, whose third component is the literal \<open>0\<close>. For \<open>set({x: a, y: b})\<close> that string
  is \<open>translate3d(\<close>a\<open>px, \<close>b\<open>px, 0)\<close>.
\<close>

theorem set_writes_translate3d:
  assumes "ref_current s = Some e"
  shows "set_transform str s p =
           Inr (s\<lparr>local_current := Object_assign (local_current s) p,
                  ref_current :=
                    Some (e\<lparr>style_transform := translate3d str (Object_assign (local_current s) p)\<rparr>),
                  style_writes :=
                    style_writes s @ [translate3d str (Object_assign (local_current s) p)]\<rparr>) \<and>
         translate3d str (Object_assign (local_current s) \<lparr>arg_x = Some (Num a), arg_y = Some (Num b)\<rparr>) =
           ''translate3d('' @ str a @ ''px, '' @ str b @ ''px, 0)''"
  using assms by (simp add: set_transform_total translate3d_def Object_assign_def)

theorem set_writes_translate3d_witness:
  "set_transform int_str (attach useTransform \<lparr>style_transform = []\<rparr>)
     \<lparr>arg_x = Some (Num 5), arg_y = Some (Num 10)\<rparr> =
   Inr \<lparr>ref_current = Some \<lparr>style_transform = ''translate3d(5px, 10px, 0)''\<rparr>,
        local_current = \<lparr>point_x = Num 5, point_y = Num 10\<rparr>,
        style_writes = [''translate3d(5px, 10px, 0)'']\<rparr>"
proof -
  have r: "ref_current (attach (useTransform :: int transform_state) \<lparr>style_transform = []\<rparr>) =
      Some \<lparr>style_transform = []\<rparr>"
    by (simp add: attach_def)
  show ?thesis
    using set_writes_translate3d [OF r, of int_str "\<lparr>arg_x = Some (Num 5), arg_y = Some (Num 10)\<rparr>" 5 10]
    by (simp add: attach_def useTransform_def Object_assign_def translate3d_def int_str_def
        digits.simps)
qed

text \<open>
  C7. With no element attached, \<open>set\<close> does not raise; it changes nothing but the stored
  point (no style is written, the ref stays empty), and the stored point is the merged
  one. Once an element is attached, the next \<open>set\<close> writes the style of the point that
  both calls have merged.
\<close>

theorem set_detached:
  assumes "ref_current s = None"
  shows "set_transform str s p = Inr (s\<lparr>local_current := Object_assign (local_current s) p\<rparr>) \<and>
         set_transform str (attach (s\<lparr>local_current := Object_assign (local_current s) p\<rparr>) e) q =
           Inr (s\<lparr>local_current := Object_assign (Object_assign (local_current s) p) q,
                  ref_current :=
                    Some (e\<lparr>style_transform :=
                      translate3d str (Object_assign (Object_assign (local_current s) p) q)\<rparr>),
                  style_writes :=
                    style_writes s @
                      [translate3d str (Object_assign (Object_assign (local_current s) p) q)]\<rparr>)"
  using assms by (simp add: set_transform_total attach_def)

theorem set_detached_witness:
  "set_transform int_str useTransform \<lparr>arg_x = Some (Num 4), arg_y = None\<rparr> =
     Inr \<lparr>ref_current = None, local_current = \<lparr>point_x = Num 4, point_y = Num 0\<rparr>,
          style_writes = []\<rparr> \<and>
   set_transform int_str
     (attach \<lparr>ref_current = None, local_current = \<lparr>point_x = Num 4, point_y = Num 0\<rparr>,
              style_writes = []\<rparr> \<lparr>style_transform = []\<rparr>)
     \<lparr>arg_x = None, arg_y = None\<rparr> =
     Inr \<lparr>ref_current = Some \<lparr>style_transform = ''translate3d(4px, 0px, 0)''\<rparr>,
          local_current = \<lparr>point_x = Num 4, point_y = Num 0\<rparr>,
          style_writes = [''translate3d(4px, 0px, 0)'']\<rparr>"
proof -
  have r: "ref_current (useTransform :: int transform_state) = None"
    by (simp add: useTransform_def)
  show ?thesis
    using set_detached [OF r, of int_str "\<lparr>arg_x = Some (Num 4), arg_y = None\<rparr>"
        "\<lparr>style_transform = []\<rparr>" "\<lparr>arg_x = None, arg_y = None\<rparr>"]
    by (simp add: useTransform_def Object_assign_def translate3d_def int_str_def digits.simps)
qed

text \<open>
  C9. A field that is present in the argument with the value \<open>undefined\<close> is copied like
  any other: \<open>set({x: undefined})\<close> leaves the stored x \<open>undefined\<close> and y as it was,
  whereas a field absent from the argument keeps the stored value. The merge copies every
  property the argument has.
\<close>

theorem set_undefined_overwrites:
  "(\<exists>s'. set_transform str s \<lparr>arg_x = Some Undefined, arg_y = None\<rparr> = Inr s' \<and>
      local_current s' = \<lparr>point_x = Undefined, point_y = point_y (local_current s)\<rparr>) \<and>
   (\<exists>s'. set_transform str s \<lparr>arg_x = None, arg_y = None\<rparr> = Inr s' \<and>
      local_current s' = local_current s) \<and>
   Object_assign t \<lparr>arg_x = Some v, arg_y = Some w\<rparr> = \<lparr>point_x = v, point_y = w\<rparr>"
  by (simp add: set_transform_total Object_assign_def split: option.splits)

theorem set_undefined_overwrites_witness:
  "\<exists>s'. set_transform int_str useTransform \<lparr>arg_x = Some Undefined, arg_y = None\<rparr> = Inr s' \<and>
        local_current s' = \<lparr>point_x = Undefined, point_y = Num 0\<rparr>"
proof -
  from set_undefined_overwrites [of int_str useTransform]
  obtain s' where "set_transform int_str useTransform \<lparr>arg_x = Some Undefined, arg_y = None\<rparr> = Inr s'"
    and "local_current s' = \<lparr>point_x = Undefined, point_y = point_y (local_current useTransform)\<rparr>"
    by blast
  then show ?thesis
    by (simp add: useTransform_def)
qed

section \<open>Properties of useCanvas2d\<close>

subsection \<open>The handler and what a firing leaves alone\<close>

lemma handleCanvas_None: "canvas_current s = None \<Longrightarrow> handleCanvas fn s = Inl TypeError"
  by (simp add: handleCanvas_def)

lemma offsetHeight_set_width [simp]: "offsetHeight (set_width c x) = offsetHeight c"
  by (simp add: offsetHeight_def set_width_def split: sizing.splits)

lemma offsetWidth_set_height [simp]: "offsetWidth (set_height c x) = offsetWidth c"
  by (simp add: offsetWidth_def set_height_def split: sizing.splits)


lemma handleCanvas_Some:
  "canvas_current s = Some c \<Longrightarrow>
   handleCanvas fn s =
     Inr (s\<lparr>canvas_current :=
              Some (set_height (set_width c (real_of_int (offsetWidth c) * devicePixelRatio s))
                      (real_of_int (offsetHeight c) * devicePixelRatio s)),
            trace := trace s @
              [SetWidth (real_of_int (offsetWidth c) * devicePixelRatio s),
               SetHeight (real_of_int (offsetHeight c) * devicePixelRatio s),
               Render fn
                 (set_height (set_width c (real_of_int (offsetWidth c) * devicePixelRatio s))
                    (real_of_int (offsetHeight c) * devicePixelRatio s))
                 (ctx_current s)]\<rparr>)"
  by (simp add: handleCanvas_def Let_def)

lemma fire_None:
  "canvas_current s = None \<Longrightarrow>
   fire j s = s\<lparr>handlers := (handlers s)[j := (handlers s ! j)\<lparr>timeout := None\<rparr>],
                trace := trace s @ [Uncaught TypeError]\<rparr>"
  by (simp add: fire_def Let_def handleCanvas_None)

lemma fire_Some:
  "canvas_current s = Some c \<Longrightarrow>
   fire j s =
     s\<lparr>handlers := (handlers s)[j := (handlers s ! j)\<lparr>timeout := None\<rparr>],
       canvas_current :=
         Some (set_height (set_width c (real_of_int (offsetWidth c) * devicePixelRatio s))
                 (real_of_int (offsetHeight c) * devicePixelRatio s)),
       trace := trace s @
         [SetWidth (real_of_int (offsetWidth c) * devicePixelRatio s),
          SetHeight (real_of_int (offsetHeight c) * devicePixelRatio s),
          Render (func (handlers s ! j))
            (set_height (set_width c (real_of_int (offsetWidth c) * devicePixelRatio s))
               (real_of_int (offsetHeight c) * devicePixelRatio s))
            (ctx_current s)]\<rparr>"
  by (simp add: fire_def Let_def handleCanvas_Some)

text \<open>Fields that no firing touches.\<close>

lemma fire_frame:
  "ctx_current (fire j s) = ctx_current s"
  "hasFired (fire j s) = hasFired s"
  "devicePixelRatio (fire j s) = devicePixelRatio s"
  "listeners (fire j s) = listeners s"
  "effect_run (fire j s) = effect_run s"
  "clock (fire j s) = clock s"
  "length (handlers (fire j s)) = length (handlers s)"
  "(canvas_current (fire j s) = None) = (canvas_current s = None)"
  by (cases "canvas_current s"; simp add: fire_None fire_Some)+

lemma fire_acquisitions: "acquisitions (trace (fire j s)) = acquisitions (trace s)"
  by (cases "canvas_current s"; simp add: fire_None fire_Some acquisitions_def)

lemma fire_due_frame:
  "ctx_current (fire_due js s) = ctx_current s \<and>
   listeners (fire_due js s) = listeners s \<and>
   effect_run (fire_due js s) = effect_run s \<and>
   clock (fire_due js s) = clock s \<and>
   devicePixelRatio (fire_due js s) = devicePixelRatio s \<and>
   hasFired (fire_due js s) = hasFired s \<and>
   length (handlers (fire_due js s)) = length (handlers s) \<and>
   (canvas_current (fire_due js s) = None) = (canvas_current s = None) \<and>
   acquisitions (trace (fire_due js s)) = acquisitions (trace s)"
  by (induction js arbitrary: s) (simp_all add: fire_frame fire_acquisitions)

lemma tick_frame:
  "ctx_current (tick s) = ctx_current s \<and>
   listeners (tick s) = listeners s \<and>
   effect_run (tick s) = effect_run s \<and>
   clock (tick s) = clock s + 1 \<and>
   devicePixelRatio (tick s) = devicePixelRatio s \<and>
   hasFired (tick s) = hasFired s \<and>
   length (handlers (tick s)) = length (handlers s) \<and>
   (canvas_current (tick s) = None) = (canvas_current s = None) \<and>
   acquisitions (trace (tick s)) = acquisitions (trace s)"
  by (simp add: tick_def Let_def fire_due_frame)

lemma advance_frame:
  "ctx_current (advance k s) = ctx_current s \<and>
   listeners (advance k s) = listeners s \<and>
   effect_run (advance k s) = effect_run s \<and>
   clock (advance k s) = clock s + k \<and>
   devicePixelRatio (advance k s) = devicePixelRatio s \<and>
   hasFired (advance k s) = hasFired s \<and>
   length (handlers (advance k s)) = length (handlers s) \<and>
   (canvas_current (advance k s) = None) = (canvas_current s = None) \<and>
   acquisitions (trace (advance k s)) = acquisitions (trace s)"
  by (induction k arbitrary: s) (simp_all add: tick_frame)

lemma fold_call_handler_frame:
  "ctx_current (fold call_handler is s) = ctx_current s \<and>
   listeners (fold call_handler is s) = listeners s \<and>
   effect_run (fold call_handler is s) = effect_run s \<and>
   clock (fold call_handler is s) = clock s \<and>
   canvas_current (fold call_handler is s) = canvas_current s \<and>
   hasFired (fold call_handler is s) = hasFired s \<and>
   devicePixelRatio (fold call_handler is s) = devicePixelRatio s \<and>
   length (handlers (fold call_handler is s)) = length (handlers s) \<and>
   trace (fold call_handler is s) = trace s"
  by (induction "is" arbitrary: s) (simp_all add: call_handler_def)

lemma resize_frame:
  "ctx_current (resize s) = ctx_current s \<and>
   listeners (resize s) = listeners s \<and>
   effect_run (resize s) = effect_run s \<and>
   clock (resize s) = clock s \<and>
   canvas_current (resize s) = canvas_current s \<and>
   hasFired (resize s) = hasFired s \<and>
   devicePixelRatio (resize s) = devicePixelRatio s \<and>
   length (handlers (resize s)) = length (handlers s) \<and>
   trace (resize s) = trace s"
  unfolding resize_def by (rule fold_call_handler_frame)

lemma effect_resize_frame:
  "ctx_current (effect_resize fn s) = ctx_current s \<and>
   canvas_current (effect_resize fn s) = canvas_current s \<and>
   trace (effect_resize fn s) = trace s"
  by (simp add: effect_resize_def Let_def call_handler_def)

lemma rerender_frame:
  "ctx_current (rerender fn s) = ctx_current s \<and>
   canvas_current (rerender fn s) = canvas_current s \<and>
   trace (rerender fn s) = trace s"
  by (simp add: rerender_def effect_resize_frame cleanup_resize_def split: option.splits prod.splits)

lemma layout_frame:
  "ctx_current (layout w h d s) = ctx_current s \<and> trace (layout w h d s) = trace s"
  by (simp add: layout_def)

lemma unmount_frame:
  "ctx_current (unmount s) = ctx_current s \<and> trace (unmount s) = trace s"
  by (simp add: unmount_def cleanup_resize_def split: option.splits prod.splits)

lemma step_context:
  "ctx_current (step s ev) = ctx_current s \<and>
   acquisitions (trace (step s ev)) = acquisitions (trace s)"
  by (cases ev) (simp_all add: resize_frame advance_frame rerender_frame layout_frame unmount_frame)

lemma run_context:
  "ctx_current (run s evs) = ctx_current s \<and>
   acquisitions (trace (run s evs)) = acquisitions (trace s)"
  unfolding run_def by (induction evs arbitrary: s) (simp_all add: step_context)

lemma mount_Some:
  "mount fn (Some c) (useCanvas2d dpr) =
     Inr \<lparr>canvas_current = Some c, ctx_current = context_2d c, hasFired = True,
          devicePixelRatio = dpr,
          handlers = [\<lparr>func = fn, wait = 250, timeout = Some 250\<rparr>],
          listeners = [0], effect_run = Some (fn, 0), clock = 0, trace = [GetContext]\<rparr>"
  by (simp add: mount_def useCanvas2d_def effect_resize_def effect_context_def Let_def
      call_handler_def debounce_def debounced_call_def)

subsection \<open>Timers\<close>

lemma fire_handlers:
  "handlers (fire j s) = (handlers s)[j := (handlers s ! j)\<lparr>timeout := None\<rparr>]"
  by (cases "canvas_current s"; simp add: fire_None fire_Some)

lemma fire_due_none:
  "(\<And>j. j \<in> set js \<Longrightarrow> \<not> due (clock s) (handlers s ! j)) \<Longrightarrow> fire_due js s = s"
  by (induction js) simp_all

lemma fire_due_single:
  assumes "distinct js" and "i \<in> set js" and "i < length (handlers s)"
    and "due (clock s) (handlers s ! i)"
    and "\<And>j. j \<in> set js \<Longrightarrow> j \<noteq> i \<Longrightarrow> \<not> due (clock s) (handlers s ! j)"
  shows "fire_due js s = fire i s"
  using assms
proof (induction js)
  case Nil
  then show ?case by simp
next
  case (Cons j js)
  show ?case
  proof (cases "j = i")
    case True
    have "fire_due js (fire i s) = fire i s"
    proof (rule fire_due_none)
      fix j' assume j': "j' \<in> set js"
      with Cons.prems(1) True have ne: "j' \<noteq> i" by auto
      then have "handlers (fire i s) ! j' = handlers s ! j'"
        by (simp add: fire_handlers)
      moreover have "\<not> due (clock s) (handlers s ! j')"
        using Cons.prems(5) [of j'] j' ne by simp
      ultimately show "\<not> due (clock (fire i s)) (handlers (fire i s) ! j')"
        by (simp add: fire_frame)
    qed
    then show ?thesis
      using True Cons.prems(4) by simp
  next
    case False
    then have nd: "\<not> due (clock s) (handlers s ! j)"
      using Cons.prems(5) [of j] by simp
    have "fire_due js s = fire i s"
    proof (rule Cons.IH)
      show "distinct js" using Cons.prems(1) by simp
      show "i \<in> set js" using Cons.prems(2) False by auto
      show "i < length (handlers s)" by (rule Cons.prems(3))
      show "due (clock s) (handlers s ! i)" by (rule Cons.prems(4))
      show "\<And>j. j \<in> set js \<Longrightarrow> j \<noteq> i \<Longrightarrow> \<not> due (clock s) (handlers s ! j)"
        using Cons.prems(5) by simp
    qed
    then show ?thesis
      using nd by simp
  qed
qed

lemma tick_quiet:
  assumes "\<And>j. j < length (handlers s) \<Longrightarrow> \<not> due (clock s + 1) (handlers s ! j)"
  shows "tick s = s\<lparr>clock := clock s + 1\<rparr>"
  unfolding tick_def Let_def
  by (rule fire_due_none) (use assms in simp)

lemma tick_fire:
  assumes "i < length (handlers s)" and "due (clock s + 1) (handlers s ! i)"
    and "\<And>j. j < length (handlers s) \<Longrightarrow> j \<noteq> i \<Longrightarrow> \<not> due (clock s + 1) (handlers s ! j)"
  shows "tick s = fire i (s\<lparr>clock := clock s + 1\<rparr>)"
  unfolding tick_def Let_def
  by (rule fire_due_single) (use assms in simp_all)

lemma advance_quiet:
  "(\<And>j t. j < length (handlers s) \<Longrightarrow> timeout (handlers s ! j) = Some t \<Longrightarrow> clock s + k < t) \<Longrightarrow>
   advance k s = s\<lparr>clock := clock s + k\<rparr>"
proof (induction k arbitrary: s)
  case 0
  show ?case by simp
next
  case (Suc k)
  have t: "tick s = s\<lparr>clock := clock s + 1\<rparr>"
  proof (rule tick_quiet)
    fix j assume "j < length (handlers s)"
    then show "\<not> due (clock s + 1) (handlers s ! j)"
      using Suc.prems [of j] by (fastforce simp: due_def split: option.splits)
  qed
  have "advance k (s\<lparr>clock := clock s + 1\<rparr>) =
      s\<lparr>clock := clock s + 1\<rparr>\<lparr>clock := clock (s\<lparr>clock := clock s + 1\<rparr>) + k\<rparr>"
  proof (rule Suc.IH)
    fix j t
    assume "j < length (handlers (s\<lparr>clock := clock s + 1\<rparr>))"
      and "timeout (handlers (s\<lparr>clock := clock s + 1\<rparr>) ! j) = Some t"
    then show "clock (s\<lparr>clock := clock s + 1\<rparr>) + k < t"
      using Suc.prems [of j t] by simp
  qed
  then show ?case
    using t by simp
qed

lemma advance_add: "advance (a + b) s = advance b (advance a s)"
  by (induction a arbitrary: s) simp_all

lemma advance_fire:
  assumes i: "i < length (handlers s)"
    and T: "timeout (handlers s ! i) = Some T"
    and lo: "clock s < T" and hi: "T \<le> clock s + k"
    and others: "\<And>j. j < length (handlers s) \<Longrightarrow> j \<noteq> i \<Longrightarrow> timeout (handlers s ! j) = None"
  shows "advance k s = (fire i (s\<lparr>clock := T\<rparr>))\<lparr>clock := clock s + k\<rparr>"
proof -
  define a where "a = T - clock s - 1"
  define b where "b = clock s + k - T"
  have k: "k = a + (1 + b)" and Ta: "clock s + a + 1 = T"
    using lo hi by (simp_all add: a_def b_def)
  have only: "\<And>j t. j < length (handlers s) \<Longrightarrow> timeout (handlers s ! j) = Some t \<Longrightarrow> t = T"
    using T others by (metis option.distinct(1) option.inject)
  have s1: "advance a s = s\<lparr>clock := clock s + a\<rparr>"
  proof (rule advance_quiet)
    fix j t assume "j < length (handlers s)" and "timeout (handlers s ! j) = Some t"
    then have "t = T" by (rule only)
    then show "clock s + a < t" using Ta by simp
  qed
  have s2: "tick (s\<lparr>clock := clock s + a\<rparr>) = fire i (s\<lparr>clock := T\<rparr>)"
  proof -
    have "tick (s\<lparr>clock := clock s + a\<rparr>) =
        fire i (s\<lparr>clock := clock s + a\<rparr>\<lparr>clock := clock (s\<lparr>clock := clock s + a\<rparr>) + 1\<rparr>)"
    proof (rule tick_fire)
      show "i < length (handlers (s\<lparr>clock := clock s + a\<rparr>))" using i by simp
      show "due (clock (s\<lparr>clock := clock s + a\<rparr>) + 1) (handlers (s\<lparr>clock := clock s + a\<rparr>) ! i)"
        using T Ta by (simp add: due_def)
      fix j assume "j < length (handlers (s\<lparr>clock := clock s + a\<rparr>))" and "j \<noteq> i"
      then show "\<not> due (clock (s\<lparr>clock := clock s + a\<rparr>) + 1) (handlers (s\<lparr>clock := clock s + a\<rparr>) ! j)"
        using others [of j] by (simp add: due_def)
    qed
    then show ?thesis using Ta by simp
  qed
  have s3: "advance b (fire i (s\<lparr>clock := T\<rparr>)) =
      (fire i (s\<lparr>clock := T\<rparr>))\<lparr>clock := clock (fire i (s\<lparr>clock := T\<rparr>)) + b\<rparr>"
  proof (rule advance_quiet)
    fix j t
    assume j: "j < length (handlers (fire i (s\<lparr>clock := T\<rparr>)))"
      and t: "timeout (handlers (fire i (s\<lparr>clock := T\<rparr>)) ! j) = Some t"
    have "timeout (handlers (fire i (s\<lparr>clock := T\<rparr>)) ! j) = None"
    proof (cases "j = i")
      case True
      then show ?thesis using i by (simp add: fire_handlers)
    next
      case False
      then show ?thesis using others [of j] j by (simp add: fire_handlers)
    qed
    with t show "clock (fire i (s\<lparr>clock := T\<rparr>)) + b < t" by simp
  qed
  have "advance k s = advance (Suc b) (advance a s)"
    unfolding k by (simp only: advance_add plus_1_eq_Suc)
  also have "\<dots> = advance b (tick (advance a s))"
    by simp
  also have "\<dots> = (fire i (s\<lparr>clock := T\<rparr>))\<lparr>clock := clock (fire i (s\<lparr>clock := T\<rparr>)) + b\<rparr>"
    by (simp only: s1 s2 s3)
  also have "clock (fire i (s\<lparr>clock := T\<rparr>)) + b = clock s + k"
    using hi by (simp add: fire_frame b_def)
  finally show ?thesis .
qed

lemma demo_mount: "mount ''f'' (Some demo_canvas) (useCanvas2d 2) = Inr demo_mounted"
  by (simp add: mount_Some demo_mounted_def demo_canvas_def)

lemma run_Nil: "run s [] = s"
  by (simp add: run_def)

lemma run_Cons: "run s (ev # evs) = run (step s ev) evs"
  by (simp add: run_def)

lemma run_append: "run s (evs @ evs') = run (run s evs) evs'"
  by (simp add: run_def)

subsection \<open>A steady hook through a burst\<close>

lemma steady_others:
  "steady fn i s \<Longrightarrow> j < length (handlers s) \<Longrightarrow> j \<noteq> i \<Longrightarrow> timeout (handlers s ! j) = None"
  by (simp add: steady_def)

lemma resize_steady:
  assumes "steady fn i s"
  shows "resize s =
    s\<lparr>handlers := (handlers s)[i := (handlers s ! i)\<lparr>timeout := Some (clock s + 250)\<rparr>]\<rparr>"
  using assms by (simp add: steady_def resize_def call_handler_def debounced_call_def)

lemma steady_resize:
  assumes "steady fn i s"
  shows "steady fn i (resize s) \<and> timeout (handlers (resize s) ! i) = Some (clock (resize s) + 250) \<and>
         trace (resize s) = trace s \<and> ctx_current (resize s) = ctx_current s"
  using assms unfolding resize_steady [OF assms]
  by (auto simp: steady_def nth_list_update)

lemma steady_advance:
  assumes st: "steady fn i s" and T: "timeout (handlers s ! i) = Some T" and lt: "clock s + k < T"
  shows "advance k s = s\<lparr>clock := clock s + k\<rparr>"
proof (rule advance_quiet)
  fix j t assume j: "j < length (handlers s)" and t: "timeout (handlers s ! j) = Some t"
  have "j = i"
    using steady_others [OF st j] t by (cases "j = i") simp_all
  then show "clock s + k < t"
    using T t lt by simp
qed

lemma steady_clock: "steady fn i s \<Longrightarrow> steady fn i (s\<lparr>clock := c\<rparr>)"
  by (simp add: steady_def)

lemma steady_layout:
  "steady fn i s \<Longrightarrow>
   steady fn i (layout w h d s) \<and> handlers (layout w h d s) = handlers s \<and>
   clock (layout w h d s) = clock s \<and> trace (layout w h d s) = trace s \<and>
   ctx_current (layout w h d s) = ctx_current s"
  by (auto simp: steady_def layout_def)

lemma burst_inv:
  assumes "steady fn i s" and "timeout (handlers s ! i) = Some (clock s + (250 - t))"
    and "t < 250" and "within_window t evs"
  shows "steady fn i (run s evs) \<and>
         timeout (handlers (run s evs) ! i) = Some (clock (run s evs) + (250 - since_resize t evs)) \<and>
         since_resize t evs < 250 \<and>
         trace (run s evs) = trace s \<and> ctx_current (run s evs) = ctx_current s"
  using assms
proof (induction evs arbitrary: s t)
  case Nil
  then show ?case by (simp add: run_Nil)
next
  case (Cons ev evs)
  show ?case
  proof (cases ev)
    case Resize
    note r = steady_resize [OF Cons.prems(1)]
    have "steady fn i (run (resize s) evs) \<and>
         timeout (handlers (run (resize s) evs) ! i) =
           Some (clock (run (resize s) evs) + (250 - since_resize 0 evs)) \<and>
         since_resize 0 evs < 250 \<and>
         trace (run (resize s) evs) = trace (resize s) \<and>
         ctx_current (run (resize s) evs) = ctx_current (resize s)"
    proof (rule Cons.IH)
      show "steady fn i (resize s)" using r by simp
      show "timeout (handlers (resize s) ! i) = Some (clock (resize s) + (250 - 0))"
        using r by simp
      show "(0::nat) < 250" by simp
      show "within_window 0 evs" using Cons.prems(4) Resize by simp
    qed
    then show ?thesis
      using r Resize by (simp add: run_Cons)
  next
    case (Advance k)
    have k: "t + k < 250" and w: "within_window (t + k) evs"
      using Cons.prems(4) Advance by simp_all
    have a: "advance k s = s\<lparr>clock := clock s + k\<rparr>"
      by (rule steady_advance [OF Cons.prems(1) Cons.prems(2)]) (use k in simp)
    let ?s = "s\<lparr>clock := clock s + k\<rparr>"
    have "steady fn i (run ?s evs) \<and>
         timeout (handlers (run ?s evs) ! i) =
           Some (clock (run ?s evs) + (250 - since_resize (t + k) evs)) \<and>
         since_resize (t + k) evs < 250 \<and>
         trace (run ?s evs) = trace ?s \<and> ctx_current (run ?s evs) = ctx_current ?s"
    proof (rule Cons.IH)
      show "steady fn i ?s" using Cons.prems(1) by (rule steady_clock)
      show "timeout (handlers ?s ! i) = Some (clock ?s + (250 - (t + k)))"
        using Cons.prems(2) k by simp
      show "t + k < 250" by (rule k)
      show "within_window (t + k) evs" by (rule w)
    qed
    then show ?thesis
      using a Advance by (simp add: run_Cons)
  next
    case (Rerender f)
    then show ?thesis using Cons.prems(4) by simp
  next
    case (Layout w h d)
    note l = steady_layout [OF Cons.prems(1), of w h d]
    let ?s = "layout w h d s"
    have "steady fn i (run ?s evs) \<and>
         timeout (handlers (run ?s evs) ! i) =
           Some (clock (run ?s evs) + (250 - since_resize t evs)) \<and>
         since_resize t evs < 250 \<and>
         trace (run ?s evs) = trace ?s \<and> ctx_current (run ?s evs) = ctx_current ?s"
    proof (rule Cons.IH)
      show "steady fn i ?s" using l by simp
      show "timeout (handlers ?s ! i) = Some (clock ?s + (250 - t))"
        using l Cons.prems(2) by simp
      show "t < 250" by (rule Cons.prems(3))
      show "within_window t evs" using Cons.prems(4) Layout by simp
    qed
    then show ?thesis
      using l Layout by (simp add: run_Cons)
  next
    case Unmount
    then show ?thesis using Cons.prems(4) by simp
  qed
qed

text \<open>The firing that ends the quiescence of a steady hook.\<close>

lemma steady_fire:
  assumes st: "steady fn i s" and c: "canvas_current s = Some c"
    and T: "timeout (handlers s ! i) = Some T" and lo: "clock s < T" and hi: "T \<le> clock s + k"
  shows "trace (advance k s) =
    trace s @
      [SetWidth (real_of_int (offsetWidth c) * devicePixelRatio s),
       SetHeight (real_of_int (offsetHeight c) * devicePixelRatio s),
       Render fn (set_height (set_width c (real_of_int (offsetWidth c) * devicePixelRatio s))
                 (real_of_int (offsetHeight c) * devicePixelRatio s)) (ctx_current s)]"
proof -
  have i: "i < length (handlers s)" and f: "func (handlers s ! i) = fn"
    using st by (simp_all add: steady_def)
  have "advance k s = (fire i (s\<lparr>clock := T\<rparr>))\<lparr>clock := clock s + k\<rparr>"
    using i T lo hi steady_others [OF st] by (rule advance_fire)
  moreover have "canvas_current (s\<lparr>clock := T\<rparr>) = Some c"
    using c by simp
  ultimately show ?thesis
    using f by (simp add: fire_Some)
qed

lemma mounted_steady:
  "steady fn 0
     \<lparr>canvas_current = Some c, ctx_current = k, hasFired = True, devicePixelRatio = dpr,
      handlers = [\<lparr>func = fn, wait = 250, timeout = t\<rparr>],
      listeners = [0], effect_run = Some (fn, 0), clock = n, trace = tr\<rparr>"
  by (simp add: steady_def)

subsection \<open>Evaluating a run of a hook with one debounced function\<close>

lemma advance_waiting:
  assumes "n + k < T"
  shows "advance k
      \<lparr>canvas_current = c, ctx_current = x, hasFired = hf, devicePixelRatio = dpr,
       handlers = [\<lparr>func = fn, wait = w, timeout = Some T\<rparr>],
       listeners = ls, effect_run = er, clock = n, trace = tr\<rparr> =
     \<lparr>canvas_current = c, ctx_current = x, hasFired = hf, devicePixelRatio = dpr,
      handlers = [\<lparr>func = fn, wait = w, timeout = Some T\<rparr>],
      listeners = ls, effect_run = er, clock = n + k, trace = tr\<rparr>"
proof -
  let ?s = "\<lparr>canvas_current = c, ctx_current = x, hasFired = hf, devicePixelRatio = dpr,
       handlers = [\<lparr>func = fn, wait = w, timeout = Some T\<rparr>],
       listeners = ls, effect_run = er, clock = n, trace = tr\<rparr>"
  have "advance k ?s = ?s\<lparr>clock := clock ?s + k\<rparr>"
    by (rule advance_quiet) (use assms in simp)
  then show ?thesis by simp
qed

lemma advance_idle:
  "advance k
      \<lparr>canvas_current = c, ctx_current = x, hasFired = hf, devicePixelRatio = dpr,
       handlers = [\<lparr>func = fn, wait = w, timeout = None\<rparr>],
       listeners = ls, effect_run = er, clock = n, trace = tr\<rparr> =
     \<lparr>canvas_current = c, ctx_current = x, hasFired = hf, devicePixelRatio = dpr,
      handlers = [\<lparr>func = fn, wait = w, timeout = None\<rparr>],
      listeners = ls, effect_run = er, clock = n + k, trace = tr\<rparr>"
proof -
  let ?s = "\<lparr>canvas_current = c, ctx_current = x, hasFired = hf, devicePixelRatio = dpr,
       handlers = [\<lparr>func = fn, wait = w, timeout = None\<rparr>],
       listeners = ls, effect_run = er, clock = n, trace = tr\<rparr>"
  have "advance k ?s = ?s\<lparr>clock := clock ?s + k\<rparr>"
    by (rule advance_quiet) simp
  then show ?thesis by simp
qed

lemma advance_firing:
  assumes "n < T" and "T \<le> n + k"
  shows "advance k
      \<lparr>canvas_current = Some c, ctx_current = x, hasFired = hf, devicePixelRatio = dpr,
       handlers = [\<lparr>func = fn, wait = w, timeout = Some T\<rparr>],
       listeners = ls, effect_run = er, clock = n, trace = tr\<rparr> =
     \<lparr>canvas_current =
        Some (set_height (set_width c (real_of_int (offsetWidth c) * dpr))
                (real_of_int (offsetHeight c) * dpr)),
      ctx_current = x, hasFired = hf, devicePixelRatio = dpr,
      handlers = [\<lparr>func = fn, wait = w, timeout = None\<rparr>],
      listeners = ls, effect_run = er, clock = n + k,
      trace = tr @
        [SetWidth (real_of_int (offsetWidth c) * dpr),
         SetHeight (real_of_int (offsetHeight c) * dpr),
         Render fn
           (set_height (set_width c (real_of_int (offsetWidth c) * dpr))
              (real_of_int (offsetHeight c) * dpr)) x]\<rparr>"
proof -
  let ?s = "\<lparr>canvas_current = Some c, ctx_current = x, hasFired = hf, devicePixelRatio = dpr,
       handlers = [\<lparr>func = fn, wait = w, timeout = Some T\<rparr>],
       listeners = ls, effect_run = er, clock = n, trace = tr\<rparr>"
  have "advance k ?s = (fire 0 (?s\<lparr>clock := T\<rparr>))\<lparr>clock := clock ?s + k\<rparr>"
    by (rule advance_fire) (use assms in simp_all)
  then show ?thesis
    by (simp add: fire_Some)
qed

lemma advance_firing_detached:
  assumes "n < T" and "T \<le> n + k"
  shows "advance k
      \<lparr>canvas_current = None, ctx_current = x, hasFired = hf, devicePixelRatio = dpr,
       handlers = [\<lparr>func = fn, wait = w, timeout = Some T\<rparr>],
       listeners = ls, effect_run = er, clock = n, trace = tr\<rparr> =
     \<lparr>canvas_current = None, ctx_current = x, hasFired = hf, devicePixelRatio = dpr,
      handlers = [\<lparr>func = fn, wait = w, timeout = None\<rparr>],
      listeners = ls, effect_run = er, clock = n + k,
      trace = tr @ [Uncaught TypeError]\<rparr>"
proof -
  let ?s = "\<lparr>canvas_current = None, ctx_current = x, hasFired = hf, devicePixelRatio = dpr,
       handlers = [\<lparr>func = fn, wait = w, timeout = Some T\<rparr>],
       listeners = ls, effect_run = er, clock = n, trace = tr\<rparr>"
  have "advance k ?s = (fire 0 (?s\<lparr>clock := T\<rparr>))\<lparr>clock := clock ?s + k\<rparr>"
    by (rule advance_fire) (use assms in simp_all)
  then show ?thesis
    by (simp add: fire_None)
qed

text \<open>The rules that evaluate a run on an explicit state, and the concrete canvases.\<close>

lemmas run_eval =
  run_def resize_def call_handler_def debounced_call_def unmount_def cleanup_resize_def
  layout_def advance_waiting advance_idle advance_firing advance_firing_detached

lemmas canvas_eval =
  offsetWidth_def offsetHeight_def set_width_def set_height_def unsigned_long_def reflected_def

subsection \<open>The claims\<close>

text \<open>
  C1, as the code has it. Mounting with a canvas attached succeeds and acquires the
  context, but invokes no render callback: the first effect calls the debounced function,
  which only starts its timer. With no resize event in between, the callback has not been
  invoked before 250 time units have passed, and has been invoked exactly once, on the
  freshly recomputed canvas, from then on. The one-shot \<open>hasFired\<close> flag keeps a later run of
  the effect (for another callback) from calling its new debounced function.
\<close>

theorem initial_render_after_delay:
  "\<exists>s. mount fn (Some c) (useCanvas2d dpr) = Inr s \<and>
       trace s = [GetContext] \<and>
       trace (advance k s) =
         (if k < 250 then [GetContext]
          else [GetContext, SetWidth (real_of_int (offsetWidth c) * dpr), SetHeight (real_of_int (offsetHeight c) * dpr),
                Render fn (set_height (set_width c (real_of_int (offsetWidth c) * dpr))
                 (real_of_int (offsetHeight c) * dpr))
                  (context_2d c)]) \<and>
       map timeout (handlers (rerender fn' s)) =
         (if fn' = fn then [Some 250] else [Some 250, None])"
proof -
  let ?s = "\<lparr>canvas_current = Some c, ctx_current = context_2d c, hasFired = True,
          devicePixelRatio = dpr,
          handlers = [\<lparr>func = fn, wait = 250, timeout = Some 250\<rparr>],
          listeners = [0], effect_run = Some (fn, 0), clock = 0, trace = [GetContext]\<rparr>"
  have m: "mount fn (Some c) (useCanvas2d dpr) = Inr ?s"
    by (rule mount_Some)
  have st: "steady fn 0 ?s"
    by (rule mounted_steady)
  have T: "timeout (handlers ?s ! 0) = Some 250"
    by simp
  have a: "trace (advance k ?s) =
         (if k < 250 then [GetContext]
          else [GetContext, SetWidth (real_of_int (offsetWidth c) * dpr), SetHeight (real_of_int (offsetHeight c) * dpr),
                Render fn (set_height (set_width c (real_of_int (offsetWidth c) * dpr))
                 (real_of_int (offsetHeight c) * dpr))
                  (context_2d c)])"
  proof (cases "k < 250")
    case True
    have "advance k ?s = ?s\<lparr>clock := clock ?s + k\<rparr>"
      by (rule steady_advance [OF st T]) (use True in simp)
    then show ?thesis
      using True by simp
  next
    case False
    have "trace (advance k ?s) =
      trace ?s @
        [SetWidth (real_of_int (offsetWidth c) * devicePixelRatio ?s),
         SetHeight (real_of_int (offsetHeight c) * devicePixelRatio ?s),
         Render fn (set_height (set_width c (real_of_int (offsetWidth c) * devicePixelRatio ?s))
                 (real_of_int (offsetHeight c) * devicePixelRatio ?s)) (ctx_current ?s)]"
      by (rule steady_fire [OF st _ T]) (use False in simp_all)
    then show ?thesis
      using False by simp
  qed
  have r: "map timeout (handlers (rerender fn' ?s)) =
         (if fn' = fn then [Some 250] else [Some 250, None])"
    by (simp add: rerender_def effect_resize_def cleanup_resize_def debounce_def Let_def)
  have "trace ?s = [GetContext]"
    by simp
  then show ?thesis
    using m a r by blast
qed

text \<open>The instance of C1 on the concrete canvas, 250 time units after mounting.\<close>

theorem initial_render_after_delay_witness:
  "\<exists>s. mount ''f'' (Some demo_canvas) (useCanvas2d 2) = Inr s \<and>
       trace s = [GetContext] \<and>
       trace (advance 250 s) =
         [GetContext, SetWidth 200, SetHeight 100,
          Render ''f'' (demo_canvas\<lparr>width := 200, height := 100\<rparr>) (Some Context2D)] \<and>
       map timeout (handlers (rerender ''g'' s)) = [Some 250, None]"
  using initial_render_after_delay [of "''f''" demo_canvas 2 250 "''g''"]
  by (simp add: demo_canvas_def canvas_eval)

text \<open>
  C1 as stated fails: right after mounting the concrete canvas no render callback has
  been invoked, none has been 249 time units later, and none has been before a resize
  event that arrives after 100 time units.
\<close>

theorem initial_render_not_immediate:
  "mount ''f'' (Some demo_canvas) (useCanvas2d 2) = Inr demo_mounted \<and>
   renders (trace demo_mounted) = 0 \<and>
   trace (run demo_mounted [Advance 249]) = [GetContext] \<and>
   renders (trace (run demo_mounted [Advance 100, Resize])) = 0"
proof -
  have "renders (trace demo_mounted) = 0"
    by (simp add: demo_mounted_def renders_def)
  moreover have "trace (run demo_mounted [Advance 249]) = [GetContext]"
    by (simp add: demo_mounted_def run_eval)
  moreover have "renders (trace (run demo_mounted [Advance 100, Resize])) = 0"
    by (simp add: demo_mounted_def run_eval renders_def)
  ultimately show ?thesis
    using demo_mount by simp
qed

text \<open>
  C2. Tearing down must cancel a pending debounced render; the code does not. On the
  concrete canvas, a resize event 300 time units after mounting schedules a render; the
  hook is unmounted at once. The timer of that render is still set after the unmounting,
  and 250 time units later it fires: the handler runs on the cleared element ref and
  raises, and the host reports the exception.
\<close>

theorem pending_render_survives_teardown:
  "timeout (handlers (run demo_mounted [Advance 300, Resize, Unmount]) ! 0) = Some 550 \<and>
   trace (run demo_mounted [Advance 300, Resize, Unmount]) =
     [GetContext, SetWidth 200, SetHeight 100,
      Render ''f'' (demo_canvas\<lparr>width := 200, height := 100\<rparr>) (Some Context2D)] \<and>
   trace (run demo_mounted [Advance 300, Resize, Unmount, Advance 250]) =
     [GetContext, SetWidth 200, SetHeight 100,
      Render ''f'' (demo_canvas\<lparr>width := 200, height := 100\<rparr>) (Some Context2D),
      Uncaught TypeError]"
proof -
  have "timeout (handlers (run demo_mounted [Advance 300, Resize, Unmount]) ! 0) = Some 550"
    by (simp add: demo_mounted_def demo_canvas_def run_eval canvas_eval)
  moreover have "trace (run demo_mounted [Advance 300, Resize, Unmount]) =
     [GetContext, SetWidth 200, SetHeight 100,
      Render ''f'' (demo_canvas\<lparr>width := 200, height := 100\<rparr>) (Some Context2D)]"
    by (simp add: demo_mounted_def demo_canvas_def run_eval canvas_eval)
  moreover have "trace (run demo_mounted [Advance 300, Resize, Unmount, Advance 250]) =
     [GetContext, SetWidth 200, SetHeight 100,
      Render ''f'' (demo_canvas\<lparr>width := 200, height := 100\<rparr>) (Some Context2D),
      Uncaught TypeError]"
    by (simp add: demo_mounted_def demo_canvas_def run_eval canvas_eval)
  ultimately show ?thesis
    by simp
qed




text \<open>
  C5, as the code has it. Take a steady hook and a burst that begins with a resize event
  and stays within the window. During the burst nothing is recomputed and no callback is
  invoked. Once 250 time units have passed since the last resize event of the burst, there
  has been exactly one recomputation and one invocation of the callback, and both use the
  displayed size and the pixel density of the moment the timer fires, which are those at
  the end of the burst, later layout changes included.
\<close>

theorem burst_coalesced:
  assumes "steady fn i s" and "within_window 0 evs" and "250 \<le> since_resize 0 evs + k"
  defines "s1 \<equiv> run s (Resize # evs)"
  shows "trace s1 = trace s \<and>
         (\<exists>c. canvas_current s1 = Some c \<and>
            trace (advance k s1) =
              trace s @
                [SetWidth (real_of_int (offsetWidth c) * devicePixelRatio s1),
                 SetHeight (real_of_int (offsetHeight c) * devicePixelRatio s1),
                 Render fn (set_height (set_width c (real_of_int (offsetWidth c) * devicePixelRatio s1))
                 (real_of_int (offsetHeight c) * devicePixelRatio s1)) (ctx_current s)]) \<and>
         renders (trace (advance k s1)) = renders (trace s) + 1 \<and>
         recomputations (trace (advance k s1)) = recomputations (trace s) + 1"
proof -
  note r = steady_resize [OF assms(1)]
  have s1: "s1 = run (resize s) evs"
    by (simp add: s1_def run_Cons)
  have inv: "steady fn i s1 \<and>
         timeout (handlers s1 ! i) = Some (clock s1 + (250 - since_resize 0 evs)) \<and>
         since_resize 0 evs < 250 \<and>
         trace s1 = trace (resize s) \<and> ctx_current s1 = ctx_current (resize s)"
    unfolding s1
  proof (rule burst_inv)
    show "steady fn i (resize s)" using r by simp
    show "timeout (handlers (resize s) ! i) = Some (clock (resize s) + (250 - 0))"
      using r by simp
    show "(0::nat) < 250" by simp
    show "within_window 0 evs" by (rule assms(2))
  qed
  then have st: "steady fn i s1" by simp
  then obtain c where c: "canvas_current s1 = Some c"
    by (auto simp: steady_def)
  have tr: "trace s1 = trace s" and cx: "ctx_current s1 = ctx_current s"
    using inv r by simp_all
  have "trace (advance k s1) =
    trace s1 @
      [SetWidth (real_of_int (offsetWidth c) * devicePixelRatio s1),
       SetHeight (real_of_int (offsetHeight c) * devicePixelRatio s1),
       Render fn (set_height (set_width c (real_of_int (offsetWidth c) * devicePixelRatio s1))
                 (real_of_int (offsetHeight c) * devicePixelRatio s1)) (ctx_current s1)]"
  proof (rule steady_fire [OF st c])
    show "timeout (handlers s1 ! i) = Some (clock s1 + (250 - since_resize 0 evs))"
      using inv by simp
    have "since_resize 0 evs < 250" using inv by simp
    then show "clock s1 < clock s1 + (250 - since_resize 0 evs)"
      by arith
    show "clock s1 + (250 - since_resize 0 evs) \<le> clock s1 + k"
      using assms(3) by simp
  qed
  then have f: "trace (advance k s1) =
    trace s @
      [SetWidth (real_of_int (offsetWidth c) * devicePixelRatio s1),
       SetHeight (real_of_int (offsetHeight c) * devicePixelRatio s1),
       Render fn (set_height (set_width c (real_of_int (offsetWidth c) * devicePixelRatio s1))
                 (real_of_int (offsetHeight c) * devicePixelRatio s1)) (ctx_current s)]"
    by (simp only: tr cx)
  have "renders (trace (advance k s1)) = renders (trace s) + 1"
    unfolding f by (simp add: renders_def)
  moreover have "recomputations (trace (advance k s1)) = recomputations (trace s) + 1"
    unfolding f by (simp add: recomputations_def)
  ultimately show ?thesis
    using tr c f by blast
qed

text \<open>
  The instance of C5 for two resize events 100 time units apart and a layout change 100
  time units after the second.
\<close>

theorem burst_coalesced_witness:
  "steady ''f'' 0 demo_mounted \<and>
   within_window 0 [Advance 100, Resize, Advance 100, Layout 7 8 3 :: string event] \<and>
   250 \<le> since_resize 0 [Advance 100, Resize, Advance 100, Layout 7 8 3 :: string event] + 150 \<and>
   trace (run demo_mounted [Resize, Advance 100, Resize, Advance 100, Layout 7 8 3]) = [GetContext] \<and>
   trace (advance 150 (run demo_mounted [Resize, Advance 100, Resize, Advance 100, Layout 7 8 3])) =
     [GetContext, SetWidth 21, SetHeight 24,
      Render ''f''
        \<lparr>sizing = Fixed 7 8, width = 21, height = 24, context_2d = Some Context2D\<rparr>
        (Some Context2D)]"
proof -
  let ?evs = "[Advance 100, Resize, Advance 100, Layout 7 8 3 :: string event]"
  let ?s1 = "run demo_mounted (Resize # ?evs)"
  have st: "steady ''f'' 0 demo_mounted"
    by (simp add: steady_def demo_mounted_def)
  have w: "within_window 0 ?evs"
    by simp
  have q: "250 \<le> since_resize 0 ?evs + 150"
    by simp
  have c: "canvas_current ?s1 =
      Some \<lparr>sizing = Fixed 7 8, width = 300, height = 150, context_2d = Some Context2D\<rparr>"
    by (simp add: demo_mounted_def demo_canvas_def run_eval canvas_eval)
  have d: "devicePixelRatio ?s1 = 3"
    by (simp add: demo_mounted_def demo_canvas_def run_eval canvas_eval)
  have t0: "trace demo_mounted = [GetContext]" and c0: "ctx_current demo_mounted = Some Context2D"
    by (simp_all add: demo_mounted_def)
  from burst_coalesced [OF st w q] obtain cc where t1: "trace ?s1 = trace demo_mounted"
    and cc: "canvas_current ?s1 = Some cc"
    and tr: "trace (advance 150 ?s1) =
      trace demo_mounted @
        [SetWidth (real_of_int (offsetWidth cc) * devicePixelRatio ?s1),
         SetHeight (real_of_int (offsetHeight cc) * devicePixelRatio ?s1),
         Render ''f''
           (set_height (set_width cc (real_of_int (offsetWidth cc) * devicePixelRatio ?s1))
              (real_of_int (offsetHeight cc) * devicePixelRatio ?s1))
           (ctx_current demo_mounted)]"
    by (elim exE conjE)
  have e: "cc = \<lparr>sizing = Fixed 7 8, width = 300, height = 150, context_2d = Some Context2D\<rparr>"
    using c cc by simp
  have 1: "trace ?s1 = [GetContext]"
    using t1 t0 by simp
  have 2: "trace (advance 150 ?s1) =
     [GetContext, SetWidth 21, SetHeight 24,
      Render ''f''
        \<lparr>sizing = Fixed 7 8, width = 21, height = 24, context_2d = Some Context2D\<rparr>
        (Some Context2D)]"
    unfolding tr e d t0 c0
    by (simp add: canvas_eval)
  show ?thesis
    using st w q 1 2 by (intro conjI)
qed

text \<open>
  C5 as stated fails: after the initial render, one resize event arrives while the canvas
  is displayed at 100 by 50 with density 2; 100 time units later the layout changes to 7
  by 8 with density 3, with no resize event. The single recomputation for that event sets
  21 by 24, not the 200 by 100 of the moment of the event.
\<close>

theorem burst_reads_layout_at_firing:
  "trace (run demo_mounted [Advance 250, Resize, Advance 100, Layout 7 8 3, Advance 150]) =
    [GetContext, SetWidth 200, SetHeight 100,
     Render ''f'' (demo_canvas\<lparr>width := 200, height := 100\<rparr>) (Some Context2D),
     SetWidth 21, SetHeight 24,
     Render ''f''
       \<lparr>sizing = Fixed 7 8, width = 21, height = 24, context_2d = Some Context2D\<rparr>
       (Some Context2D)]"
  by (simp add: demo_mounted_def demo_canvas_def run_eval canvas_eval)

text \<open>
  C8. Mounting with a canvas attached calls \<open>getContext\<close> once, and whatever events
  follow (resize events, the passing of time with the firings it brings, renders with
  another callback, layout changes, unmounting) the number of such calls stays one and
  the context ref keeps the value obtained at mounting.
\<close>

theorem context_acquired_once:
  "\<exists>s. mount fn (Some c) (useCanvas2d dpr) = Inr s \<and>
       acquisitions (trace s) = 1 \<and>
       acquisitions (trace (run s evs)) = 1 \<and>
       ctx_current (run s evs) = context_2d c"
proof -
  let ?s = "\<lparr>canvas_current = Some c, ctx_current = context_2d c, hasFired = True,
          devicePixelRatio = dpr,
          handlers = [\<lparr>func = fn, wait = 250, timeout = Some 250\<rparr>],
          listeners = [0], effect_run = Some (fn, 0), clock = 0, trace = [GetContext]\<rparr>"
  have m: "mount fn (Some c) (useCanvas2d dpr) = Inr ?s"
    by (rule mount_Some)
  have a: "acquisitions (trace ?s) = 1"
    by (simp add: acquisitions_def)
  have "acquisitions (trace (run ?s evs)) = 1"
    using run_context [of ?s evs] a by simp
  moreover have "ctx_current (run ?s evs) = context_2d c"
    using run_context [of ?s evs] by simp
  ultimately show ?thesis
    using m a by blast
qed

text \<open>The instance of C8 for two bursts around a change of the callback.\<close>

theorem context_acquired_once_witness:
  "\<exists>s. mount ''f'' (Some demo_canvas) (useCanvas2d 2) = Inr s \<and>
       acquisitions (trace (run s [Resize, Advance 250, Rerender ''g'', Resize, Advance 250])) = 1"
  using context_acquired_once [of "''f''" demo_canvas 2 "[Resize, Advance 250, Rerender ''g'', Resize, Advance 250]"]
  by blast

text \<open>
  C10. When the element ref is unset the handler raises instead of returning, and the
  firing that ran it leaves the exception to the host and the ref unset.
\<close>

theorem handler_unguarded:
  assumes "canvas_current s = None"
  shows "handleCanvas fn s = Inl TypeError \<and>
         trace (fire j s) = trace s @ [Uncaught TypeError] \<and>
         canvas_current (fire j s) = None"
  using assms by (simp add: handleCanvas_None fire_None)

text \<open>
  The instance of C10 in a state the hook reaches: unmounted right after mounting, the
  timer of the initial call fires 250 time units later on an empty ref.
\<close>

theorem handler_unguarded_witness:
  "canvas_current (unmount demo_mounted) = None \<and>
   handleCanvas ''f'' (unmount demo_mounted) = Inl TypeError \<and>
   trace (fire 0 (unmount demo_mounted)) = [GetContext, Uncaught TypeError] \<and>
   run demo_mounted [Unmount, Advance 250] = (fire 0 ((unmount demo_mounted)\<lparr>clock := 250\<rparr>))\<lparr>clock := 250\<rparr>"
proof -
  have n: "canvas_current (unmount demo_mounted) = None"
    by (simp add: unmount_def demo_mounted_def cleanup_resize_def)
  have t: "trace (unmount demo_mounted) = [GetContext]"
    by (simp add: unmount_def demo_mounted_def cleanup_resize_def)
  have "advance 250 (unmount demo_mounted) =
      (fire 0 ((unmount demo_mounted)\<lparr>clock := 250\<rparr>))\<lparr>clock := clock (unmount demo_mounted) + 250\<rparr>"
    by (rule advance_fire) (simp_all add: unmount_def demo_mounted_def cleanup_resize_def)
  then have r: "run demo_mounted [Unmount, Advance 250] =
      (fire 0 ((unmount demo_mounted)\<lparr>clock := 250\<rparr>))\<lparr>clock := 250\<rparr>"
    by (simp add: run_def unmount_def demo_mounted_def cleanup_resize_def)
  show ?thesis
    using handler_unguarded [OF n, of "''f''" 0] n t r by simp
qed

end
